theory Spec2Isabelle
  imports Main "HOL-Library.Char_ord" "HOL-Library.List_Lexorder"
begin

section \<open>The profile model (awscfg.go, types)\<close>

text \<open>
  The development embeds \<^verbatim>\<open>Merge\<close> of package awsconfigfile (the version of
  awscfg.go that has SessionName, PreferRoles and DefaultRegion among its options).
  Go strings are byte strings: \<open>string\<close> here, compared bytewise and lexicographically
  (the orders of \<open>Char_ord\<close> and \<open>List_Lexorder\<close>), as Go's \<^verbatim>\<open><\<close> on strings does.

  Both Go structs have fields SSOStartURL, SSORegion, GeneratedFrom and a session name;
  the fields of SSOSession carry the suffix \<open>_s\<close> here, those of AccountProfile keep
  their names.
\<close>

record SSOSession =
  SSOSessionName_s :: string
  SSOStartURL_s :: string
  SSORegistrationScopes :: string
  SSORegion_s :: string
  GeneratedFrom_s :: string

record AccountProfile =
  AccountName :: string
  SSOSessionName :: string
  AccountID :: string
  RoleName :: string
  GeneratedFrom :: string
  Region :: string
  CommonFateURL :: string
  SSOStartURL :: string
  SSORegion :: string

text \<open>
  \<^verbatim>\<open>SSOProfile\<close> is an interface. The type switch of Merge tells \<^verbatim>\<open>*SSOSession\<close>,
  \<^verbatim>\<open>*AccountProfile\<close> and everything else apart (any other implementation, or a nil
  entry): \<open>Unsupported\<close> stands for the last.

  The slice holds pointers and Merge writes through them. The model passes the profiles
  by value: it is the code's behaviour whenever no pointer occurs twice in
  \<^verbatim>\<open>opts.Profiles\<close>; what the caller sees of its own profile objects after the call is not
  part of the result.
\<close>

datatype SSOProfile = Session SSOSession | Account AccountProfile | Unsupported

section \<open>The configuration document (gopkg.in/ini.v1, at its interface)\<close>

text \<open>
  The ini library is not part of the repository. It is modelled by what Merge uses of it,
  for a file loaded with the default options: a file is the ordered list of its sections,
  a section a name and the ordered list of its keys with their values. Section and key
  names are case sensitive. The library keeps section names unique (a repeated header
  extends the section it repeats), which the theorems below assume of the input where they
  need it (\<open>distinct (map Name f)\<close>). Lookups are taken to read the section itself and to
  return the stored value: \<^verbatim>\<open>Key(k).String()\<close> is the empty string for an absent key.
  Comments, value interpolation and lookups through parent sections are outside the model.
  The library reads the empty section name as the name of the default section; no section
  of a file has the empty name and Merge passes none to \<^verbatim>\<open>GetSection\<close> or
  \<^verbatim>\<open>DeleteSection\<close>, so the model has no such case.
\<close>

record Section =
  Name :: string
  Keys :: "(string \<times> string) list"

type_synonym File = "Section list"

datatype error = TemplateParseError | TemplateExecuteError | SectionError | RegexpPanic

definition HasKey :: "Section \<Rightarrow> string \<Rightarrow> bool" where
  "HasKey sec k = (map_of (Keys sec) k \<noteq> None)"

definition KeyString :: "Section \<Rightarrow> string \<Rightarrow> string" where
  "KeyString sec k = (case map_of (Keys sec) k of Some v \<Rightarrow> v | None \<Rightarrow> [])"

definition GetSection :: "File \<Rightarrow> string \<Rightarrow> Section option" where
  "GetSection f n = find (\<lambda>s. Name s = n) f"

definition DeleteSection :: "string \<Rightarrow> File \<Rightarrow> File" where
  "DeleteSection n f = filter (\<lambda>s. Name s \<noteq> n) f"

text \<open>
  \<^verbatim>\<open>NewSection\<close> fails on the empty name, returns the section that has the name when there
  is one, and appends an empty section otherwise.
\<close>

definition NewSection :: "string \<Rightarrow> File \<Rightarrow> error + File" where
  "NewSection n f =
     (if n = [] then Inl SectionError
      else if n \<in> Name ` set f then Inr f
      else Inr (f @ [\<lparr>Name = n, Keys = []\<rparr>]))"

fun set_key :: "string \<Rightarrow> string \<Rightarrow> (string \<times> string) list \<Rightarrow> (string \<times> string) list" where
  "set_key k v [] = [(k, v)]"
| "set_key k v ((k', v') # kvs) = (if k' = k then (k, v) # kvs else (k', v') # set_key k v kvs)"

text \<open>
  A struct handed to \<^verbatim>\<open>ReflectFrom\<close> is the list of its fields in declaration order, each
  with the key of its \<^verbatim>\<open>ini\<close> tag, its value and whether the tag says \<^verbatim>\<open>omitempty\<close>.
  \<^verbatim>\<open>ReflectFrom\<close> sets the keys in that order and leaves out an empty \<^verbatim>\<open>omitempty\<close> field.
\<close>

type_synonym entry = "(string \<times> string \<times> bool) list"

fun reflect_keys :: "entry \<Rightarrow> (string \<times> string) list \<Rightarrow> (string \<times> string) list" where
  "reflect_keys [] kvs = kvs"
| "reflect_keys ((k, v, omitempty) # fs) kvs =
     (if omitempty \<and> v = [] then reflect_keys fs kvs else reflect_keys fs (set_key k v kvs))"

fun ReflectFrom :: "string \<Rightarrow> entry \<Rightarrow> File \<Rightarrow> File" where
  "ReflectFrom n e [] = []"
| "ReflectFrom n e (s # f) =
     (if Name s = n then s\<lparr>Keys := reflect_keys e (Keys s)\<rparr> # f else s # ReflectFrom n e f)"

section \<open>Rendering profiles (ToIni)\<close>

definition SSOSession_ToIni :: "SSOSession \<Rightarrow> string \<Rightarrow> bool \<Rightarrow> entry" where
  "SSOSession_ToIni s profileName nocredentialProcessProfile =
     [(''sso_start_url'', SSOStartURL_s s, False),
      (''sso_registration_scopes'', SSORegistrationScopes s, False),
      (''sso_region'', SSORegion_s s, False),
      (''common_fate_generated_from'', GeneratedFrom_s s, True)]"

definition AccountProfile_ToIni :: "AccountProfile \<Rightarrow> string \<Rightarrow> bool \<Rightarrow> entry" where
  "AccountProfile_ToIni a profileName noCredentialProcess =
     (if noCredentialProcess then
        [(''sso_session'', SSOSessionName a, False),
         (''sso_account_id'', AccountID a, False),
         (''common_fate_generated_from'', GeneratedFrom a, False),
         (''sso_role_name'', RoleName a, False),
         (''region'', Region a, True)]
      else
        (let credProcess = ''granted credential-process --profile '' @ profileName;
             credProcess = (if CommonFateURL a \<noteq> [] then credProcess @ '' --url '' @ CommonFateURL a
                            else credProcess)
         in [(''granted_sso_start_url'', SSOStartURL a, False),
             (''granted_sso_region'', SSORegion a, True),
             (''granted_sso_account_id'', AccountID a, False),
             (''granted_sso_role_name'', RoleName a, False),
             (''common_fate_generated_from'', GeneratedFrom a, False),
             (''credential_process'', credProcess, False),
             (''region'', Region a, True)]))"

section \<open>Merge\<close>

record MergeOpts =
  Config :: File
  Prefix :: string
  Profiles :: "SSOProfile list"
  SectionNameTemplate :: string
  NoCredentialProcess :: bool
  PruneStartURLs :: "string list"
  SessionName :: string
  SSOScopes :: "string list"
  PreferRoles :: "string list"
  Verbose :: bool
  DefaultRegion :: string

text \<open>
  Merge changes \<^verbatim>\<open>opts.Config\<close> in place and returns an error or nil; a run that fails
  leaves the document as far as it got. The result of the model is the error, the
  document after the call and the lines logged at warning level. The debug and info
  lines, and the log level that \<^verbatim>\<open>Verbose\<close> sets, are not modelled.
\<close>

record MergeResult =
  err :: "error option"
  config :: File
  warnings :: "string list"

text \<open>
  text/template with the sprig functions, and regexp2, are libraries. A compiled template
  is the function from the profile it is executed on to the text it renders, \<open>None\<close>
  when the execution fails; \<open>Parse\<close> maps the template's text to the compiled template,
  \<open>None\<close> when it does not parse. \<open>Compile\<close> maps a pattern to its matcher
  (\<^verbatim>\<open>MatchString\<close>), \<open>None\<close> when the pattern does not compile. Both are parameters of
  Merge, so every theorem holds for every template and pattern language. Executing a
  template is taken to be a function of the profile: a template that calls one of sprig's
  random or clock functions is outside the model.
\<close>

type_synonym template = "AccountProfile \<Rightarrow> string option"
type_synonym parser = "string \<Rightarrow> template option"
type_synonym regexp_compiler = "string \<Rightarrow> (string \<Rightarrow> bool) option"

definition normalizeAccountName :: "string \<Rightarrow> string" where
  "normalizeAccountName accountName = map (\<lambda>c. if c = CHR '' '' then CHR ''-'' else c) accountName"

fun Join :: "string list \<Rightarrow> string \<Rightarrow> string" where
  "Join [] sep = []"
| "Join [x] sep = x"
| "Join (x # y # ys) sep = x @ sep @ Join (y # ys) sep"

text \<open>
  The type switch over \<^verbatim>\<open>opts.Profiles\<close>. The default case is \<^verbatim>\<open>return nil\<close>: Merge as a
  whole returns there, which is \<open>None\<close>.
\<close>

fun separate :: "SSOProfile list \<Rightarrow> SSOSession list \<Rightarrow> AccountProfile list
    \<Rightarrow> (SSOSession list \<times> AccountProfile list) option" where
  "separate [] ssoSessions accountProfiles = Some (ssoSessions, accountProfiles)"
| "separate (Session p # ps) ssoSessions accountProfiles =
     separate ps (ssoSessions @ [p]) accountProfiles"
| "separate (Account p # ps) ssoSessions accountProfiles =
     separate ps ssoSessions (accountProfiles @ [p])"
| "separate (Unsupported # ps) ssoSessions accountProfiles = None"

text \<open>
  \<^verbatim>\<open>sort.SliceStable\<close> on the combined name. A stable sort has one result, the one
  \<open>sort_key\<close> computes.
\<close>

definition combinedName :: "AccountProfile \<Rightarrow> string" where
  "combinedName a = AccountName a @ ''/'' @ RoleName a"

definition sort_profiles :: "AccountProfile list \<Rightarrow> AccountProfile list" where
  "sort_profiles accountProfiles = sort_key combinedName accountProfiles"

subsection \<open>Pruning\<close>

definition section_startURL :: "Section \<Rightarrow> string" where
  "section_startURL sec =
     (if HasKey sec ''granted_sso_start_url'' then KeyString sec ''granted_sso_start_url''
      else if HasKey sec ''sso_start_url'' then KeyString sec ''sso_start_url''
      else [])"

fun prune_urls :: "Section \<Rightarrow> string \<Rightarrow> string list \<Rightarrow> File \<Rightarrow> File" where
  "prune_urls sec startURL [] f = f"
| "prune_urls sec startURL (pruneURL # urls) f =
     (let isGenerated = HasKey sec ''common_fate_generated_from''
      in prune_urls sec startURL urls
           (if isGenerated \<and> startURL = pruneURL then DeleteSection (Name sec) f else f))"

text \<open>The outer loop runs over the sections the file had when the loop started.\<close>

fun prune_sections :: "Section list \<Rightarrow> string list \<Rightarrow> File \<Rightarrow> File" where
  "prune_sections [] urls f = f"
| "prune_sections (sec # secs) urls f =
     prune_sections secs urls (prune_urls sec (section_startURL sec) urls f)"

definition prune :: "string list \<Rightarrow> File \<Rightarrow> File" where
  "prune urls f = prune_sections f urls f"

subsection \<open>Writing a section\<close>

text \<open>
  Merge writes a section in three places, each time by \<^verbatim>\<open>DeleteSection\<close>,
  \<^verbatim>\<open>NewSection\<close> (returning its error), and \<^verbatim>\<open>ReflectFrom\<close> on the section
  \<^verbatim>\<open>NewSection\<close> returned (which cannot fail on a pointer to a struct of strings).
\<close>

definition write_section :: "string \<Rightarrow> entry \<Rightarrow> File \<Rightarrow> error option \<times> File" where
  "write_section sectionName e f =
     (let f1 = DeleteSection sectionName f
      in case NewSection sectionName f1 of
           Inl er \<Rightarrow> (Some er, f1)
         | Inr f2 \<Rightarrow> (None, ReflectFrom sectionName e f2))"

subsection \<open>The sessions of the input\<close>

fun write_sessions :: "bool \<Rightarrow> SSOSession list \<Rightarrow> File \<Rightarrow> error option \<times> File" where
  "write_sessions ncp [] f = (None, f)"
| "write_sessions ncp (ssoSession # rest) f =
     (let ssoSession = ssoSession\<lparr>SSOSessionName_s := normalizeAccountName (SSOSessionName_s ssoSession)\<rparr>;
          sectionName = ''sso-session '' @ SSOSessionName_s ssoSession
      in case write_section sectionName
                (SSOSession_ToIni ssoSession (SSOSessionName_s ssoSession) ncp) f of
           (Some er, f') \<Rightarrow> (Some er, f')
         | (None, f') \<Rightarrow> write_sessions ncp rest f')"

subsection \<open>The implicit session (no-credential-process mode)\<close>

definition implicit_session_name :: "MergeOpts \<Rightarrow> string" where
  "implicit_session_name opts =
     (if Prefix opts \<noteq> [] then normalizeAccountName (Prefix opts @ SessionName opts)
      else SessionName opts)"

text \<open>
  The first pass over the account profiles. Its state is the document, the map
  \<^verbatim>\<open>createdSessions\<close> (only ever set to true: the set of its keys) and the profiles, of
  which it sets \<^verbatim>\<open>SSOSessionName\<close>; the profiles come back in their order.
\<close>

fun assign_sessions :: "MergeOpts \<Rightarrow> AccountProfile list \<Rightarrow> string set \<Rightarrow> File
    \<Rightarrow> error option \<times> File \<times> AccountProfile list" where
  "assign_sessions opts [] createdSessions f = (None, f, [])"
| "assign_sessions opts (accountProfile # rest) createdSessions f =
     (if SSOSessionName accountProfile \<noteq> [] then
        (case assign_sessions opts rest createdSessions f of
           (er, f', rest') \<Rightarrow> (er, f', accountProfile # rest'))
      else
        (let sessionName = implicit_session_name opts
         in if sessionName \<in> createdSessions then
              (case assign_sessions opts rest createdSessions f of
                 (er, f', rest') \<Rightarrow> (er, f', accountProfile # rest'))
            else
              (let ssoSession = \<lparr>SSOSessionName_s = sessionName,
                                 SSOStartURL_s = SSOStartURL accountProfile,
                                 SSORegistrationScopes = Join (SSOScopes opts) '' '',
                                 SSORegion_s = SSORegion accountProfile,
                                 GeneratedFrom_s = GeneratedFrom accountProfile\<rparr>;
                   sectionName = ''sso-session '' @ sessionName
               in case write_section sectionName
                         (SSOSession_ToIni ssoSession sessionName (NoCredentialProcess opts)) f of
                    (Some er, f') \<Rightarrow> (Some er, f', accountProfile # rest)
                  | (None, f') \<Rightarrow>
                      (case assign_sessions opts rest (insert sessionName createdSessions) f' of
                         (er, f'', rest') \<Rightarrow>
                           (er, f'', accountProfile\<lparr>SSOSessionName := sessionName\<rparr> # rest')))))"

subsection \<open>The account profiles\<close>

text \<open>
  The state of the second loop: the document, \<^verbatim>\<open>seenProfileNames\<close> and
  \<^verbatim>\<open>profileNameToRoles\<close> (a Go map of slices: an absent name reads as the empty slice).
\<close>

record LoopState =
  cfg :: File
  seenProfileNames :: "string list"
  profileNameToRoles :: "string \<Rightarrow> string list"

text \<open>
  The loop over \<^verbatim>\<open>opts.PreferRoles\<close>; its result is \<^verbatim>\<open>shouldOverwrite\<close>. The error of
  \<^verbatim>\<open>regexp2.Compile\<close> is dropped, so a pattern that does not compile leaves a nil
  regexp, and \<^verbatim>\<open>MatchString\<close> on it panics.
\<close>

fun prefer_loop :: "regexp_compiler \<Rightarrow> string list \<Rightarrow> string \<Rightarrow> string \<Rightarrow> error + bool" where
  "prefer_loop Compile [] thisRoleName existingRoleName = Inr True"
| "prefer_loop Compile (preferRole # rest) thisRoleName existingRoleName =
     (case Compile preferRole of
        None \<Rightarrow> Inl RegexpPanic
      | Some r \<Rightarrow>
          (let matchesThisRole = r thisRoleName;
               matchesExistingRole = r existingRoleName
           in if matchesThisRole \<and> \<not> matchesExistingRole then Inr True
              else if \<not> matchesThisRole \<and> matchesExistingRole then Inr False
              else prefer_loop Compile rest thisRoleName existingRoleName))"

definition existing_role :: "Section \<Rightarrow> string" where
  "existing_role existingSection =
     (if HasKey existingSection ''granted_sso_role_name''
      then KeyString existingSection ''granted_sso_role_name''
      else KeyString existingSection ''sso_role_name'')"

text \<open>
  What the loop body assigns to the profile before it executes the template
  (\<open>name_fields\<close>), and after (\<open>default_region\<close>).
\<close>

definition name_fields :: "string \<Rightarrow> AccountProfile \<Rightarrow> AccountProfile" where
  "name_fields ssoSessionName accountProfile =
     accountProfile\<lparr>AccountName := normalizeAccountName (AccountName accountProfile),
                    SSOSessionName := ssoSessionName\<rparr>"

definition default_region :: "MergeOpts \<Rightarrow> AccountProfile \<Rightarrow> AccountProfile" where
  "default_region opts accountProfile =
     (if Region accountProfile = [] \<and> DefaultRegion opts \<noteq> []
      then accountProfile\<lparr>Region := DefaultRegion opts\<rparr> else accountProfile)"

text \<open>
  The end of the loop body: the section is written, and the name and the role are
  recorded unless \<^verbatim>\<open>isOverwrite\<close> is set.
\<close>

definition write_profile :: "MergeOpts \<Rightarrow> AccountProfile \<Rightarrow> string \<Rightarrow> bool \<Rightarrow> LoopState
    \<Rightarrow> error option \<times> LoopState" where
  "write_profile opts accountProfile profileName isOverwrite st =
     (case write_section (''profile '' @ profileName)
             (AccountProfile_ToIni accountProfile profileName (NoCredentialProcess opts)) (cfg st) of
        (Some er, f') \<Rightarrow> (Some er, st\<lparr>cfg := f'\<rparr>)
      | (None, f') \<Rightarrow>
          (None,
           if \<not> isOverwrite then
             st\<lparr>cfg := f',
                seenProfileNames := seenProfileNames st @ [profileName],
                profileNameToRoles := (profileNameToRoles st)
                  (profileName := profileNameToRoles st profileName @ [RoleName accountProfile])\<rparr>
           else st\<lparr>cfg := f'\<rparr>))"

text \<open>One iteration; \<^verbatim>\<open>continue\<close> is \<open>(None, st)\<close>.\<close>

definition process_profile :: "regexp_compiler \<Rightarrow> MergeOpts \<Rightarrow> template \<Rightarrow> string
    \<Rightarrow> AccountProfile \<Rightarrow> LoopState \<Rightarrow> error option \<times> LoopState" where
  "process_profile Compile opts sectionNameTempl ssoSessionName accountProfile st =
     (let accountProfile = name_fields ssoSessionName accountProfile
      in case sectionNameTempl accountProfile of
           None \<Rightarrow> (Some TemplateExecuteError, st)
         | Some rendered \<Rightarrow>
             (let accountProfile = default_region opts accountProfile;
                  profileName = Prefix opts @ rendered;
                  sectionName = ''profile '' @ profileName;
                  isSeen = (profileName \<in> set (seenProfileNames st))
              in if isSeen \<and> PreferRoles opts \<noteq> [] then
                   (case GetSection (cfg st) sectionName of
                      None \<Rightarrow> (Some SectionError, st)
                    | Some existingSection \<Rightarrow>
                        (case prefer_loop Compile (PreferRoles opts) (RoleName accountProfile)
                                (existing_role existingSection) of
                           Inl er \<Rightarrow> (Some er, st)
                         | Inr shouldOverwrite \<Rightarrow>
                             if \<not> shouldOverwrite then (None, st)
                             else write_profile opts accountProfile profileName True st))
                 else write_profile opts accountProfile profileName False st))"

fun process_profiles :: "regexp_compiler \<Rightarrow> MergeOpts \<Rightarrow> template \<Rightarrow> string
    \<Rightarrow> AccountProfile list \<Rightarrow> LoopState \<Rightarrow> error option \<times> LoopState" where
  "process_profiles Compile opts sectionNameTempl ssoSessionName [] st = (None, st)"
| "process_profiles Compile opts sectionNameTempl ssoSessionName (accountProfile # rest) st =
     (case process_profile Compile opts sectionNameTempl ssoSessionName accountProfile st of
        (Some er, st') \<Rightarrow> (Some er, st')
      | (None, st') \<Rightarrow> process_profiles Compile opts sectionNameTempl ssoSessionName rest st')"

subsection \<open>The duplicate report\<close>

text \<open>The loop from index 1 that collects every name equal to its predecessor.\<close>

fun adjacent_dupes :: "string list \<Rightarrow> string list" where
  "adjacent_dupes (x # y # zs) =
     (if y = x then y # adjacent_dupes (y # zs) else adjacent_dupes (y # zs))"
| "adjacent_dupes zs = []"

definition duplicate_header :: string where
  "duplicate_header = ''Duplicate profile names detected. Only the last result will be used. You may need to manually modify the generated config file to use the correct role:''"

definition duplicate_warnings :: "LoopState \<Rightarrow> string list" where
  "duplicate_warnings st =
     (let seen = sort (seenProfileNames st);
          dupes = remdups_adj (sort (adjacent_dupes seen))
      in if dupes \<noteq> [] then
           duplicate_header
           # map (\<lambda>dup. ''Profile '' @ dup @ '' has roles: '' @ Join (profileNameToRoles st dup) '', '') dupes
         else [])"

subsection \<open>Merge\<close>

text \<open>
  \<^verbatim>\<open>ssoSessionName\<close> is declared empty and set to \<^verbatim>\<open>opts.SessionName\<close> in
  no-credential-process mode.
\<close>

definition ssoSessionName_of :: "MergeOpts \<Rightarrow> string" where
  "ssoSessionName_of opts = (if NoCredentialProcess opts then SessionName opts else [])"

text \<open>Everything after the pruning pass.\<close>

definition write_all :: "regexp_compiler \<Rightarrow> MergeOpts \<Rightarrow> template \<Rightarrow> SSOSession list
    \<Rightarrow> AccountProfile list \<Rightarrow> File \<Rightarrow> MergeResult" where
  "write_all Compile opts sectionNameTempl ssoSessions accountProfiles f =
     (case write_sessions (NoCredentialProcess opts) ssoSessions f of
        (Some er, f1) \<Rightarrow> \<lparr>err = Some er, config = f1, warnings = []\<rparr>
      | (None, f1) \<Rightarrow>
          (case (if NoCredentialProcess opts
                 then assign_sessions opts accountProfiles {} f1
                 else (None, f1, accountProfiles)) of
             (Some er, f2, aps) \<Rightarrow> \<lparr>err = Some er, config = f2, warnings = []\<rparr>
           | (None, f2, aps) \<Rightarrow>
               (let ssoSessionName = ssoSessionName_of opts
                in case process_profiles Compile opts sectionNameTempl ssoSessionName aps
                          \<lparr>cfg = f2, seenProfileNames = [], profileNameToRoles = (\<lambda>n. [])\<rparr> of
                     (Some er, st) \<Rightarrow> \<lparr>err = Some er, config = cfg st, warnings = []\<rparr>
                   | (None, st) \<Rightarrow>
                       \<lparr>err = None, config = cfg st, warnings = duplicate_warnings st\<rparr>)))"

definition with_default_template :: "MergeOpts \<Rightarrow> MergeOpts" where
  "with_default_template opts =
     (if SectionNameTemplate opts = []
      then opts\<lparr>SectionNameTemplate := ''{{ .AccountName }}/{{ .RoleName }}''\<rparr>
      else opts)"

definition Merge :: "parser \<Rightarrow> regexp_compiler \<Rightarrow> MergeOpts \<Rightarrow> MergeResult" where
  "Merge Parse Compile opts =
     (let opts = with_default_template opts
      in case separate (Profiles opts) [] [] of
           None \<Rightarrow> \<lparr>err = None, config = Config opts, warnings = []\<rparr>
         | Some (ssoSessions, accountProfiles) \<Rightarrow>
             (let accountProfiles = sort_profiles accountProfiles
              in case Parse (SectionNameTemplate opts) of
                   None \<Rightarrow> \<lparr>err = Some TemplateParseError, config = Config opts, warnings = []\<rparr>
                 | Some sectionNameTempl \<Rightarrow>
                     write_all Compile opts sectionNameTempl ssoSessions accountProfiles
                       (prune (PruneStartURLs opts) (Config opts))))"

section \<open>Notions of the statements and proofs\<close>


definition section_names :: "File \<Rightarrow> string set" where
  "section_names f = Name ` set f"

definition without :: "string set \<Rightarrow> File \<Rightarrow> File" where
  "without N f = filter (\<lambda>s. Name s \<notin> N) f"

definition profile_section :: "MergeOpts \<Rightarrow> AccountProfile \<Rightarrow> string \<Rightarrow> Section" where
  "profile_section opts a profileName =
     \<lparr>Name = ''profile '' @ profileName,
      Keys = reflect_keys (AccountProfile_ToIni a profileName (NoCredentialProcess opts)) []\<rparr>"

definition put :: "Section \<Rightarrow> File \<Rightarrow> File" where
  "put sec f = filter (\<lambda>s. Name s \<noteq> Name sec) f @ [sec]"

definition claimed :: "string list \<Rightarrow> File \<Rightarrow> bool" where
  "claimed seen T = (set (map (\<lambda>n. ''profile '' @ n) seen) \<subseteq> section_names T)"

definition tail_local :: "(File \<Rightarrow> File) \<Rightarrow> bool" where
  "tail_local \<Phi> =
     (\<forall>A T. section_names A \<inter> section_names T = {} \<longrightarrow>
        \<Phi> (A @ T) = without (section_names (\<Phi> T)) A @ \<Phi> T \<and> section_names T \<subseteq> section_names (\<Phi> T))"

definition session_section :: "SSOSession \<Rightarrow> bool \<Rightarrow> Section" where
  "session_section s ncp =
     \<lparr>Name = ''sso-session '' @ SSOSessionName_s s,
      Keys = reflect_keys (SSOSession_ToIni s (SSOSessionName_s s) ncp) []\<rparr>"

definition implicit_section :: "MergeOpts \<Rightarrow> AccountProfile \<Rightarrow> Section" where
  "implicit_section opts a =
     session_section \<lparr>SSOSessionName_s = implicit_session_name opts,
                      SSOStartURL_s = SSOStartURL a,
                      SSORegistrationScopes = Join (SSOScopes opts) '' '',
                      SSORegion_s = SSORegion a,
                      GeneratedFrom_s = GeneratedFrom a\<rparr> (NoCredentialProcess opts)"

definition sessions_phase :: "MergeOpts \<Rightarrow> SSOSession list \<Rightarrow> AccountProfile list \<Rightarrow> File \<Rightarrow> File" where
  "sessions_phase opts ss aps f =
     (if NoCredentialProcess opts
      then fst (snd (assign_sessions opts aps {} (snd (write_sessions (NoCredentialProcess opts) ss f))))
      else snd (write_sessions (NoCredentialProcess opts) ss f))"

definition assigned :: "MergeOpts \<Rightarrow> AccountProfile list \<Rightarrow> AccountProfile list" where
  "assigned opts aps =
     (if NoCredentialProcess opts then snd (snd (assign_sessions opts aps {} [])) else aps)"

definition finish :: "error option \<times> LoopState \<Rightarrow> MergeResult" where
  "finish r =
     (case r of
        (Some er, st) \<Rightarrow> \<lparr>err = Some er, config = cfg st, warnings = []\<rparr>
      | (None, st) \<Rightarrow> \<lparr>err = None, config = cfg st, warnings = duplicate_warnings st\<rparr>)"



subsection \<open>Example inputs\<close>

text \<open>
  Stand-ins for the two libraries on the inputs of the examples. The templates are those
  of the tests; a pattern that is a plain word matches the strings that contain it, and
  \<open>example_compiler\<close> compiles nothing else.
\<close>

definition example_parser :: parser where
  "example_parser s =
     (if s = ''{{ .AccountName }}/{{ .RoleName }}'' then Some (\<lambda>a. Some (AccountName a @ ''/'' @ RoleName a))
      else if s = ''{{ .AccountName }}'' then Some (\<lambda>a. Some (AccountName a))
      else if s = ''{{ .AccountName }}. '' then Some (\<lambda>a. Some (AccountName a @ ''. ''))
      else if s = ''{{ .AccountName }}.;'' then Some (\<lambda>a. Some (AccountName a @ ''.;''))
      else None)"

fun contains :: "string \<Rightarrow> string \<Rightarrow> bool" where
  "contains p [] = (p = [])"
| "contains p (c # s) = (take (length p) (c # s) = p \<or> contains p s)"

definition example_compiler :: regexp_compiler where
  "example_compiler p =
     (if p \<noteq> [] \<and> set p \<subseteq> set ''ABCDEFGHIJKLMNOPQRSTUVWXYZabcdefghijklmnopqrstuvwxyz0123456789''
      then Some (contains p) else None)"

text \<open>The profile and the documents of the tests in generator\_test.go.\<close>

definition example_profile :: "string \<Rightarrow> string \<Rightarrow> AccountProfile" where
  "example_profile accountName roleName =
     \<lparr>AccountName = accountName, SSOSessionName = [], AccountID = ''123456789012'',
      RoleName = roleName, GeneratedFrom = ''aws-sso'', Region = [], CommonFateURL = [],
      SSOStartURL = ''https://example.awsapps.com/start'', SSORegion = ''ap-southeast-2''\<rparr>"

definition example_session :: SSOSession where
  "example_session =
     \<lparr>SSOSessionName_s = ''company'', SSOStartURL_s = ''https://example.awsapps.com/start'',
      SSORegistrationScopes = ''sso:account:access'', SSORegion_s = ''ap-southeast-2'',
      GeneratedFrom_s = ''aws-sso''\<rparr>"

definition example_config :: File where
  "example_config =
     [\<lparr>Name = ''DEFAULT'', Keys = []\<rparr>,
      \<lparr>Name = ''profile example'', Keys = [(''test'', ''1'')]\<rparr>]"


definition example_opts :: MergeOpts where
  "example_opts =
     \<lparr>Config = example_config, Prefix = [],
      Profiles = [Account (example_profile ''prod'' ''DevRole'')],
      SectionNameTemplate = [], NoCredentialProcess = False, PruneStartURLs = [],
      SessionName = [], SSOScopes = [], PreferRoles = [], Verbose = False, DefaultRegion = []\<rparr>"








section \<open>Lemmas\<close>

subsection \<open>Pruning is a filter\<close>





subsection \<open>A write puts the section at the end\<close>

lemma ReflectFrom_last:
  "n \<notin> Name ` set f \<Longrightarrow>
     ReflectFrom n e (f @ [\<lparr>Name = n, Keys = kvs\<rparr>]) = f @ [\<lparr>Name = n, Keys = reflect_keys e kvs\<rparr>]"
  by (induction f) auto

lemma write_section_eq:
  "n \<noteq> [] \<Longrightarrow>
     write_section n e f =
       (None, filter (\<lambda>s. Name s \<noteq> n) f @ [\<lparr>Name = n, Keys = reflect_keys e []\<rparr>])"
proof -
  assume n: "n \<noteq> []"
  have notin: "n \<notin> Name ` set (filter (\<lambda>s. Name s \<noteq> n) f)" by auto
  then have "NewSection n (DeleteSection n f) =
      Inr (filter (\<lambda>s. Name s \<noteq> n) f @ [\<lparr>Name = n, Keys = []\<rparr>])"
    using n unfolding NewSection_def DeleteSection_def by simp
  then show ?thesis
    using ReflectFrom_last [OF notin] by (simp add: write_section_def Let_def)
qed

subsection \<open>Names, and a document without the sections of some names\<close>

lemma section_names_simps [simp]:
  "section_names [] = {}" "section_names (f @ g) = section_names f \<union> section_names g" "section_names (s # f) = insert (Name s) (section_names f)"
  by (auto simp: section_names_def)

lemma section_names_filter: "section_names (filter (\<lambda>s. Name s \<noteq> n) f) = section_names f - {n}"
  by (auto simp: section_names_def)

lemma without_simps [simp]: "without N [] = []" "without N (f @ g) = without N f @ without N g"
  by (simp_all add: without_def)

lemma without_disjoint: "section_names A \<inter> N = {} \<Longrightarrow> without N A = A"
  by (auto simp: without_def section_names_def intro!: filter_True)


lemma without_rest: "without N (without M A) = without (M \<union> N) A"
  by (auto simp: without_def intro!: filter_cong)

lemma section_names_rest: "section_names (without N A) = section_names A - N"
  by (auto simp: without_def section_names_def)

subsection \<open>One iteration of the second loop\<close>

lemma write_profile_eq:
  "write_profile opts a pn ow st =
     (None,
      if ow then st\<lparr>cfg := put (profile_section opts a pn) (cfg st)\<rparr>
      else st\<lparr>cfg := put (profile_section opts a pn) (cfg st),
              seenProfileNames := seenProfileNames st @ [pn],
              profileNameToRoles := (profileNameToRoles st)
                (pn := profileNameToRoles st pn @ [RoleName a])\<rparr>)"
  by (simp add: write_profile_def write_section_eq profile_section_def put_def)

lemma put_split:
  assumes "section_names A \<inter> section_names T = {}"
  shows "put sec (A @ T) = without (section_names (put sec T)) A @ put sec T"
proof -
  have "without (insert (Name sec) (section_names T - {Name sec})) A = filter (\<lambda>s. Name s \<noteq> Name sec) A"
    using assms by (auto simp: without_def section_names_def intro!: filter_cong)
  then show ?thesis
    by (simp add: put_def section_names_filter)
qed

lemma section_names_put: "section_names (put sec T) = insert (Name sec) (section_names T)"
  by (auto simp: put_def section_names_filter)

lemma GetSection_split: "n \<notin> section_names A \<Longrightarrow> GetSection (A @ T) n = GetSection T n"
  by (induction A) (auto simp: GetSection_def)

text \<open>
  On a document \<open>A @ T\<close> whose parts share no name, where \<open>T\<close> has the sections of
  the names seen so far, an iteration does to \<open>T\<close> what it does to \<open>T\<close> alone, and
  leaves of \<open>A\<close> the sections whose names it does not write.
\<close>

lemma process_profile_split:
  assumes disj: "section_names A \<inter> section_names T = {}"
      and cl: "claimed (seenProfileNames st) T"
  shows "process_profile Compile opts t ssn a (st\<lparr>cfg := A @ T\<rparr>) =
     (case process_profile Compile opts t ssn a (st\<lparr>cfg := T\<rparr>) of
        (e, st') \<Rightarrow> (e, st'\<lparr>cfg := without (section_names (cfg st')) A @ cfg st'\<rparr>))"
proof (cases "t (name_fields ssn a)")
  case None
  then show ?thesis
    using disj by (simp add: process_profile_def without_disjoint)
next
  case (Some rendered)
  let ?pn = "Prefix opts @ rendered"
  let ?a = "default_region opts (name_fields ssn a)"
  have A: "without (section_names T) A = A" using disj by (simp add: without_disjoint)
  show ?thesis
  proof (cases "?pn \<in> set (seenProfileNames st) \<and> PreferRoles opts \<noteq> []")
    case True
    then have "''profile '' @ ?pn \<in> section_names T" using cl by (auto simp: claimed_def)
    then have notA: "''profile '' @ ?pn \<notin> section_names A" using disj by auto
    have get: "GetSection (A @ T) (''profile '' @ ?pn) = GetSection T (''profile '' @ ?pn)"
      by (rule GetSection_split [OF notA])
    show ?thesis
      using Some True A get
      by (simp add: process_profile_def write_profile_eq
            put_split [OF disj] Let_def split: option.split sum.split)
  next
    case False
    then show ?thesis
      using Some A
      by (auto simp: process_profile_def write_profile_eq put_split [OF disj] Let_def)
  qed
qed

lemma process_profile_cases:
  obtains (failed) er where "process_profile Compile opts t ssn a st = (Some er, st)"
  | (skipped) rendered where "t (name_fields ssn a) = Some rendered"
      "Prefix opts @ rendered \<in> set (seenProfileNames st)"
      "process_profile Compile opts t ssn a st = (None, st)"
  | (overwritten) rendered where "t (name_fields ssn a) = Some rendered"
      "Prefix opts @ rendered \<in> set (seenProfileNames st)"
      "process_profile Compile opts t ssn a st =
         (None, st\<lparr>cfg := put (profile_section opts (default_region opts (name_fields ssn a))
                                (Prefix opts @ rendered)) (cfg st)\<rparr>)"
  | (recorded) rendered where "t (name_fields ssn a) = Some rendered"
      "Prefix opts @ rendered \<notin> set (seenProfileNames st) \<or> PreferRoles opts = []"
      "process_profile Compile opts t ssn a st =
         (None, st\<lparr>cfg := put (profile_section opts (default_region opts (name_fields ssn a))
                                (Prefix opts @ rendered)) (cfg st),
                    seenProfileNames := seenProfileNames st @ [Prefix opts @ rendered],
                    profileNameToRoles := (profileNameToRoles st)
                      (Prefix opts @ rendered := profileNameToRoles st (Prefix opts @ rendered)
                         @ [RoleName (default_region opts (name_fields ssn a))])\<rparr>)"
proof (cases "t (name_fields ssn a)")
  case None
  then have "process_profile Compile opts t ssn a st = (Some TemplateExecuteError, st)"
    by (simp add: process_profile_def)
  then show ?thesis by (rule failed)
next
  case (Some rendered)
  let ?pn = "Prefix opts @ rendered"
  show ?thesis
  proof (cases "?pn \<in> set (seenProfileNames st) \<and> PreferRoles opts \<noteq> []")
    case False
    then have "process_profile Compile opts t ssn a st =
         (None, st\<lparr>cfg := put (profile_section opts (default_region opts (name_fields ssn a)) ?pn) (cfg st),
                    seenProfileNames := seenProfileNames st @ [?pn],
                    profileNameToRoles := (profileNameToRoles st)
                      (?pn := profileNameToRoles st ?pn
                         @ [RoleName (default_region opts (name_fields ssn a))])\<rparr>)"
      using Some by (auto simp: process_profile_def write_profile_eq Let_def)
    then show ?thesis using Some False by (intro recorded [of rendered]) auto
  next
    case True
    show ?thesis
    proof (cases "GetSection (cfg st) (''profile '' @ ?pn)")
      case None
      then have "process_profile Compile opts t ssn a st = (Some SectionError, st)"
        using Some True by (simp add: process_profile_def Let_def)
      then show ?thesis by (rule failed)
    next
      case (Some existing)
      note ex = this
      show ?thesis
      proof (cases "prefer_loop Compile (PreferRoles opts)
                      (RoleName (default_region opts (name_fields ssn a))) (existing_role existing)")
        case (Inl er)
        then have "process_profile Compile opts t ssn a st = (Some er, st)"
          using \<open>t (name_fields ssn a) = Some rendered\<close> True ex
          by (simp add: process_profile_def Let_def)
        then show ?thesis by (rule failed)
      next
        case (Inr shouldOverwrite)
        show ?thesis
        proof (cases shouldOverwrite)
          case False
          then have "process_profile Compile opts t ssn a st = (None, st)"
            using \<open>t (name_fields ssn a) = Some rendered\<close> True ex Inr
            by (simp add: process_profile_def Let_def)
          then show ?thesis
            using \<open>t (name_fields ssn a) = Some rendered\<close> True
            by (intro skipped [of rendered]) simp_all
        next
          case True
          then have "process_profile Compile opts t ssn a st =
             (None, st\<lparr>cfg := put (profile_section opts (default_region opts (name_fields ssn a)) ?pn) (cfg st)\<rparr>)"
            using \<open>t (name_fields ssn a) = Some rendered\<close>
              \<open>?pn \<in> set (seenProfileNames st) \<and> PreferRoles opts \<noteq> []\<close> ex Inr
            by (simp add: process_profile_def write_profile_eq Let_def)
          then show ?thesis
            using \<open>t (name_fields ssn a) = Some rendered\<close>
              \<open>?pn \<in> set (seenProfileNames st) \<and> PreferRoles opts \<noteq> []\<close>
            by (intro overwritten [of rendered]) simp_all
        qed
      qed
    qed
  qed
qed

lemma process_profile_claimed:
  assumes "process_profile Compile opts t ssn a st = (e, st')"
      and "claimed (seenProfileNames st) (cfg st)"
  shows "claimed (seenProfileNames st') (cfg st') \<and> section_names (cfg st) \<subseteq> section_names (cfg st')"
proof (cases rule: process_profile_cases [of Compile opts t ssn a st])
  case (failed er)
  then show ?thesis using assms by simp
next
  case (skipped rendered)
  then show ?thesis using assms by simp
next
  case (overwritten rendered)
  then show ?thesis using assms by (auto simp: claimed_def section_names_put)
next
  case (recorded rendered)
  then show ?thesis using assms by (auto simp: claimed_def section_names_put profile_section_def)
qed

subsection \<open>The second loop\<close>

lemma process_profiles_invariant:
  assumes step: "\<And>a st e st'. process_profile Compile opts t ssn a st = (e, st') \<Longrightarrow> I st \<Longrightarrow> I st'"
      and run: "process_profiles Compile opts t ssn ps st = (e, st')"
      and init: "I st"
  shows "I st'"
  using run init
proof (induction ps arbitrary: st)
  case Nil
  then show ?case by simp
next
  case (Cons a ps)
  obtain e1 st1 where 1: "process_profile Compile opts t ssn a st = (e1, st1)"
    by (cases "process_profile Compile opts t ssn a st")
  have I1: "I st1" by (rule step [OF 1 Cons.prems(2)])
  show ?case
  proof (cases e1)
    case None
    then have "process_profiles Compile opts t ssn ps st1 = (e, st')"
      using Cons.prems(1) 1 by simp
    from Cons.IH [OF this I1] show ?thesis .
  next
    case (Some er)
    then show ?thesis using Cons.prems(1) 1 I1 by simp
  qed
qed

lemma process_profiles_claimed:
  assumes "process_profiles Compile opts t ssn ps st = (e, st')"
      and "claimed (seenProfileNames st) (cfg st)"
  shows "claimed (seenProfileNames st') (cfg st') \<and> section_names (cfg st) \<subseteq> section_names (cfg st')"
proof (rule process_profiles_invariant [OF _ assms(1),
    where I = "\<lambda>s. claimed (seenProfileNames s) (cfg s) \<and> section_names (cfg st) \<subseteq> section_names (cfg s)"])
  show "claimed (seenProfileNames st) (cfg st) \<and> section_names (cfg st) \<subseteq> section_names (cfg st)"
    using assms(2) by simp
next
  fix a s e1 s1
  assume "process_profile Compile opts t ssn a s = (e1, s1)"
    and "claimed (seenProfileNames s) (cfg s) \<and> section_names (cfg st) \<subseteq> section_names (cfg s)"
  then show "claimed (seenProfileNames s1) (cfg s1) \<and> section_names (cfg st) \<subseteq> section_names (cfg s1)"
    using process_profile_claimed [of Compile opts t ssn a s e1 s1] by auto
qed

lemma process_profiles_split:
  assumes "section_names A \<inter> section_names T = {}"
      and "claimed (seenProfileNames st) T"
  shows "process_profiles Compile opts t ssn ps (st\<lparr>cfg := A @ T\<rparr>) =
     (case process_profiles Compile opts t ssn ps (st\<lparr>cfg := T\<rparr>) of
        (e, st') \<Rightarrow> (e, st'\<lparr>cfg := without (section_names (cfg st')) A @ cfg st'\<rparr>))"
  using assms
proof (induction ps arbitrary: A T st)
  case Nil
  then show ?case by (simp add: without_disjoint)
next
  case (Cons a ps)
  obtain e1 st1 where step: "process_profile Compile opts t ssn a (st\<lparr>cfg := T\<rparr>) = (e1, st1)"
    by (cases "process_profile Compile opts t ssn a (st\<lparr>cfg := T\<rparr>)")
  let ?T1 = "cfg st1"
  let ?A1 = "without (section_names ?T1) A"
  have stepA: "process_profile Compile opts t ssn a (st\<lparr>cfg := A @ T\<rparr>) = (e1, st1\<lparr>cfg := ?A1 @ ?T1\<rparr>)"
    using process_profile_split [OF Cons.prems, of Compile opts t ssn a] step by simp
  have cl1: "claimed (seenProfileNames st1) ?T1" and mono1: "section_names T \<subseteq> section_names ?T1"
    using process_profile_claimed [OF step] Cons.prems(2) by simp_all
  show ?case
  proof (cases e1)
    case (Some er)
    then show ?thesis using step stepA by simp
  next
    case None
    obtain e2 st2 where loop: "process_profiles Compile opts t ssn ps st1 = (e2, st2)"
      by (cases "process_profiles Compile opts t ssn ps st1")
    have mono2: "section_names ?T1 \<subseteq> section_names (cfg st2)"
      using process_profiles_claimed [OF loop cl1] by simp
    have disj1: "section_names ?A1 \<inter> section_names ?T1 = {}"
      by (auto simp: section_names_rest)
    have "process_profiles Compile opts t ssn ps (st1\<lparr>cfg := ?A1 @ ?T1\<rparr>) =
        (e2, st2\<lparr>cfg := without (section_names (cfg st2)) ?A1 @ cfg st2\<rparr>)"
      using Cons.IH [OF disj1, of st1] cl1 loop by simp
    moreover have "without (section_names (cfg st2)) ?A1 = without (section_names (cfg st2)) A"
      using mono2 by (simp add: without_rest Un_absorb1)
    ultimately show ?thesis
      using None step stepA loop by simp
  qed
qed

subsection \<open>The session phases\<close>

text \<open>
  The loops that write sessions never read the document. Each is \<open>tail_local\<close>: on
  \<open>A @ T\<close> it does to \<open>T\<close> what it does to \<open>T\<close> alone and leaves of \<open>A\<close> the
  sections whose names it does not write, in their order.
\<close>

lemma tail_localD:
  assumes "tail_local \<Phi>" "section_names A \<inter> section_names T = {}"
  shows "\<Phi> (A @ T) = without (section_names (\<Phi> T)) A @ \<Phi> T" and "section_names T \<subseteq> section_names (\<Phi> T)"
  using assms by (simp_all add: tail_local_def)

lemma tail_local_id: "tail_local (\<lambda>f. f)"
  by (simp add: tail_local_def without_disjoint)

lemma tail_local_put: "tail_local (put sec)"
  by (auto simp: tail_local_def put_split section_names_put)

lemma tail_local_comp:
  assumes "tail_local \<Phi>" "tail_local \<Psi>"
  shows "tail_local (\<lambda>f. \<Psi> (\<Phi> f))"
  unfolding tail_local_def
proof (intro allI impI)
  fix A T :: File
  assume disj: "section_names A \<inter> section_names T = {}"
  let ?A1 = "without (section_names (\<Phi> T)) A"
  have 1: "\<Phi> (A @ T) = ?A1 @ \<Phi> T" and m1: "section_names T \<subseteq> section_names (\<Phi> T)"
    using tail_localD [OF assms(1) disj] by simp_all
  have disj1: "section_names ?A1 \<inter> section_names (\<Phi> T) = {}"
    by (auto simp: section_names_rest)
  have 2: "\<Psi> (?A1 @ \<Phi> T) = without (section_names (\<Psi> (\<Phi> T))) ?A1 @ \<Psi> (\<Phi> T)"
    and m2: "section_names (\<Phi> T) \<subseteq> section_names (\<Psi> (\<Phi> T))"
    using tail_localD [OF assms(2) disj1] by simp_all
  have "without (section_names (\<Psi> (\<Phi> T))) ?A1 = without (section_names (\<Psi> (\<Phi> T))) A"
    using m2 by (simp add: without_rest Un_absorb1)
  then show "\<Psi> (\<Phi> (A @ T)) = without (section_names (\<Psi> (\<Phi> T))) A @ \<Psi> (\<Phi> T) \<and> section_names T \<subseteq> section_names (\<Psi> (\<Phi> T))"
    using 1 2 m1 m2 by auto
qed

lemma write_section_put:
  "n \<noteq> [] \<Longrightarrow> write_section n e f = (None, put \<lparr>Name = n, Keys = reflect_keys e []\<rparr> f)"
  by (simp add: write_section_eq put_def)

lemma write_sessions_Cons:
  "write_sessions ncp (s # ss) f =
     write_sessions ncp ss
       (put (session_section (s\<lparr>SSOSessionName_s := normalizeAccountName (SSOSessionName_s s)\<rparr>) ncp) f)"
  by (simp add: write_section_put session_section_def Let_def)

lemma write_sessions_tail_local: "tail_local (\<lambda>f. snd (write_sessions ncp ss f))"
proof (induction ss)
  case Nil
  show ?case by (simp add: tail_local_id)
next
  case (Cons s ss)
  show ?case
    unfolding write_sessions_Cons
    by (rule tail_local_comp [OF tail_local_put Cons])
qed

lemma write_sessions_None: "fst (write_sessions ncp ss f) = None"
proof (induction ss arbitrary: f)
  case Nil
  show ?case by simp
next
  case (Cons s ss)
  show ?case unfolding write_sessions_Cons by (rule Cons)
qed

lemma assign_sessions_Cons:
  "assign_sessions opts (a # as) created f =
     (if SSOSessionName a \<noteq> [] \<or> implicit_session_name opts \<in> created then
        (case assign_sessions opts as created f of (er, f', as') \<Rightarrow> (er, f', a # as'))
      else
        (case assign_sessions opts as (insert (implicit_session_name opts) created)
                (put (implicit_section opts a) f) of
           (er, f', as') \<Rightarrow> (er, f', a\<lparr>SSOSessionName := implicit_session_name opts\<rparr> # as')))"
  by (simp add: write_section_put implicit_section_def session_section_def Let_def)

lemma assign_sessions_None: "fst (assign_sessions opts as created f) = None"
proof (induction as arbitrary: created f)
  case Nil
  show ?case by simp
next
  case (Cons a as)
  show ?case
    unfolding assign_sessions_Cons by (simp add: split_beta Cons)
qed

lemma assign_sessions_tail_local:
  "tail_local (\<lambda>f. fst (snd (assign_sessions opts as created f)))"
proof (induction as arbitrary: created)
  case Nil
  show ?case by (simp add: tail_local_id)
next
  case (Cons a as)
  show ?case
  proof (cases "SSOSessionName a \<noteq> [] \<or> implicit_session_name opts \<in> created")
    case True
    then show ?thesis
      unfolding assign_sessions_Cons using Cons [of created] by (simp add: split_beta)
  next
    case False
    have "tail_local (\<lambda>f. fst (snd (assign_sessions opts as (insert (implicit_session_name opts) created)
              (put (implicit_section opts a) f))))"
      by (rule tail_local_comp [OF tail_local_put Cons])
    then show ?thesis
      unfolding assign_sessions_Cons using False by (simp add: split_beta)
  qed
qed

lemma assign_sessions_profiles:
  "snd (snd (assign_sessions opts as created f)) = snd (snd (assign_sessions opts as created g))"
proof (induction as arbitrary: created f g)
  case Nil
  show ?case by simp
next
  case (Cons a as)
  show ?case
    unfolding assign_sessions_Cons
    by (simp add: split_beta Cons [of _ f g]
          Cons [of _ "put (implicit_section opts a) f" "put (implicit_section opts a) g"])
qed

lemma assign_sessions_name_fields:
  "map (name_fields ssn) (snd (snd (assign_sessions opts as created f))) = map (name_fields ssn) as"
proof (induction as arbitrary: created f)
  case Nil
  show ?case by simp
next
  case (Cons a as)
  have "name_fields ssn (a\<lparr>SSOSessionName := implicit_session_name opts\<rparr>) = name_fields ssn a"
    by (simp add: name_fields_def)
  then show ?case
    unfolding assign_sessions_Cons by (simp add: split_beta Cons)
qed

subsection \<open>Everything after pruning\<close>

lemma write_all_eq:
  "write_all Compile opts t ss aps f =
     finish (process_profiles Compile opts t (ssoSessionName_of opts) (assigned opts aps)
       \<lparr>cfg = sessions_phase opts ss aps f, seenProfileNames = [], profileNameToRoles = (\<lambda>n. [])\<rparr>)"
proof -
  obtain f1 where ws: "write_sessions (NoCredentialProcess opts) ss f = (None, f1)"
    using write_sessions_None [of "NoCredentialProcess opts" ss f]
    by (cases "write_sessions (NoCredentialProcess opts) ss f") simp
  show ?thesis
  proof (cases "NoCredentialProcess opts")
    case False
    then show ?thesis
      using ws
      by (simp add: write_all_def sessions_phase_def assigned_def ssoSessionName_of_def finish_def)
  next
    case True
    obtain f2 aps' where as: "assign_sessions opts aps {} f1 = (None, f2, aps')"
      using assign_sessions_None [of opts aps "{}" f1]
      by (cases "assign_sessions opts aps {} f1") simp
    have aps': "snd (snd (assign_sessions opts aps {} [])) = aps'"
      using assign_sessions_profiles [of opts aps "{}" f1 "[]"] as by simp
    show ?thesis
      using True ws as aps'
      by (simp add: write_all_def sessions_phase_def assigned_def ssoSessionName_of_def finish_def)
  qed
qed

lemma sessions_phase_tail_local: "tail_local (sessions_phase opts ss aps)"
proof (cases "NoCredentialProcess opts")
  case True
  have "tail_local (\<lambda>f. fst (snd (assign_sessions opts aps {} (snd (write_sessions True ss f)))))"
    by (rule tail_local_comp [OF write_sessions_tail_local assign_sessions_tail_local])
  then show ?thesis
    using True unfolding sessions_phase_def by simp
next
  case False
  then show ?thesis
    unfolding sessions_phase_def using write_sessions_tail_local [of False ss] by simp
qed

lemma duplicate_warnings_cfg [simp]: "duplicate_warnings (st\<lparr>cfg := f\<rparr>) = duplicate_warnings st"
  by (simp add: duplicate_warnings_def Let_def cong: if_cong)

lemma finish_cfg:
  "finish (case r of (e, st') \<Rightarrow> (e, st'\<lparr>cfg := g (cfg st')\<rparr>)) =
     (finish r)\<lparr>config := g (config (finish r))\<rparr>"
  by (simp add: finish_def split: prod.split option.split)

lemma write_all_split:
  "write_all Compile opts t ss aps f =
     (write_all Compile opts t ss aps [])
       \<lparr>config := without (section_names (config (write_all Compile opts t ss aps []))) f
                  @ config (write_all Compile opts t ss aps [])\<rparr>"
proof -
  let ?T = "sessions_phase opts ss aps []"
  let ?A = "without (section_names ?T) f"
  let ?st = "\<lparr>cfg = ?T, seenProfileNames = [], profileNameToRoles = (\<lambda>n. [])\<rparr>"
  let ?run = "process_profiles Compile opts t (ssoSessionName_of opts) (assigned opts aps)"
  have phase: "sessions_phase opts ss aps f = ?A @ ?T"
    using tail_localD(1) [OF sessions_phase_tail_local, of f "[]" opts ss aps] by simp
  have disj: "section_names ?A \<inter> section_names ?T = {}" by (auto simp: section_names_rest)
  have cl: "claimed (seenProfileNames ?st) ?T" by (simp add: claimed_def)
  obtain e st' where run: "?run ?st = (e, st')" by (cases "?run ?st")
  have mono: "section_names ?T \<subseteq> section_names (cfg st')"
    using process_profiles_claimed [OF run] cl by simp
  have "?run (?st\<lparr>cfg := ?A @ ?T\<rparr>) = (e, st'\<lparr>cfg := without (section_names (cfg st')) ?A @ cfg st'\<rparr>)"
    using process_profiles_split [OF disj cl, of Compile opts t "ssoSessionName_of opts" "assigned opts aps"] run
    by simp
  moreover have "without (section_names (cfg st')) ?A = without (section_names (cfg st')) f"
    using mono by (simp add: without_rest Un_absorb1)
  ultimately have "?run (?st\<lparr>cfg := sessions_phase opts ss aps f\<rparr>) =
      (case ?run ?st of (e, st') \<Rightarrow> (e, st'\<lparr>cfg := without (section_names (cfg st')) f @ cfg st'\<rparr>))"
    using phase run by simp
  then have "write_all Compile opts t ss aps f =
      finish (case ?run ?st of (e, st') \<Rightarrow> (e, st'\<lparr>cfg := (\<lambda>c. without (section_names c) f @ c) (cfg st')\<rparr>))"
    by (simp add: write_all_eq)
  also have "\<dots> = (finish (?run ?st))\<lparr>config := (\<lambda>c. without (section_names c) f @ c) (config (finish (?run ?st)))\<rparr>"
    by (rule finish_cfg)
  finally show ?thesis
    by (simp add: write_all_eq)
qed

subsection \<open>Unique names stay unique\<close>









lemma config_finish: "config (finish (e, st)) = cfg st"
  by (simp add: finish_def split: option.split)


subsection \<open>Pruning the result of a run\<close>


subsection \<open>Merge and the document it is given\<close>

text \<open>
  The document a run returns is the pruned input without the sections of the names the
  run writes, followed by the sections the run writes, which are those it produces from
  the empty document (\<open>Merge_split\<close>); nothing else of the result depends on the input
  document (\<open>Merge_rest\<close>).
\<close>

lemma with_default_template_simps [simp]:
  "Config (with_default_template opts) = Config opts"
  "Prefix (with_default_template opts) = Prefix opts"
  "Profiles (with_default_template opts) = Profiles opts"
  "NoCredentialProcess (with_default_template opts) = NoCredentialProcess opts"
  "PruneStartURLs (with_default_template opts) = PruneStartURLs opts"
  "SessionName (with_default_template opts) = SessionName opts"
  "SSOScopes (with_default_template opts) = SSOScopes opts"
  "PreferRoles (with_default_template opts) = PreferRoles opts"
  "DefaultRegion (with_default_template opts) = DefaultRegion opts"
  by (simp_all add: with_default_template_def)

lemma with_default_template_Config:
  "with_default_template (opts\<lparr>Config := f\<rparr>) = (with_default_template opts)\<lparr>Config := f\<rparr>"
  by (simp add: with_default_template_def)

lemma implicit_session_name_Config [simp]:
  "implicit_session_name (opts\<lparr>Config := g\<rparr>) = implicit_session_name opts"
  by (simp add: implicit_session_name_def)

lemma assign_sessions_Config [simp]:
  "assign_sessions (opts\<lparr>Config := g\<rparr>) as created f = assign_sessions opts as created f"
  by (induction as arbitrary: created f)
     (simp_all add: Let_def cong: option.case_cong prod.case_cong if_cong)

lemma process_profile_Config [simp]:
  "process_profile Compile (opts\<lparr>Config := g\<rparr>) t ssn a st = process_profile Compile opts t ssn a st"
  by (simp add: process_profile_def write_profile_def default_region_def Let_def
        cong: option.case_cong sum.case_cong prod.case_cong if_cong)

lemma process_profiles_Config [simp]:
  "process_profiles Compile (opts\<lparr>Config := g\<rparr>) t ssn ps st = process_profiles Compile opts t ssn ps st"
  by (induction ps arbitrary: st) (simp_all cong: option.case_cong prod.case_cong)

lemma write_all_Config [simp]:
  "write_all Compile (opts\<lparr>Config := g\<rparr>) t ss aps f = write_all Compile opts t ss aps f"
  by (simp add: write_all_def ssoSessionName_of_def cong: option.case_cong prod.case_cong if_cong)

lemma prune_Nil [simp]: "prune urls [] = []"
  by (simp add: prune_def)

lemma Merge_split:
  "config (Merge Parse Compile opts) =
     (let W = config (Merge Parse Compile (opts\<lparr>Config := []\<rparr>))
      in if separate (Profiles opts) [] [] = None
            \<or> Parse (SectionNameTemplate (with_default_template opts)) = None
         then Config opts
         else without (section_names W) (prune (PruneStartURLs opts) (Config opts)) @ W)"
proof -
  let ?o = "with_default_template opts"
  show ?thesis
  proof (cases "separate (Profiles opts) [] []")
    case None
    then show ?thesis by (simp add: Merge_def Let_def)
  next
    case (Some p)
    obtain ss aps where p: "p = (ss, aps)" by (cases p)
    show ?thesis
    proof (cases "Parse (SectionNameTemplate ?o)")
      case None
      then show ?thesis using Some p by (simp add: Merge_def Let_def)
    next
      case (Some t)
      have 1: "Merge Parse Compile opts =
          write_all Compile ?o t ss (sort_profiles aps) (prune (PruneStartURLs opts) (Config opts))"
        using Some \<open>separate (Profiles opts) [] [] = Some p\<close> p by (simp add: Merge_def Let_def)
      have 2: "Merge Parse Compile (opts\<lparr>Config := []\<rparr>) =
          write_all Compile ?o t ss (sort_profiles aps) []"
        using Some \<open>separate (Profiles opts) [] [] = Some p\<close> p
        by (simp add: Merge_def Let_def with_default_template_Config)
      show ?thesis
        unfolding 1 2
        using Some \<open>separate (Profiles opts) [] [] = Some p\<close>
        by (subst write_all_split) (simp add: Let_def)
    qed
  qed
qed





subsection \<open>The type switch and the preference loop\<close>

lemma separate_None: "separate ps ss aps = None \<longleftrightarrow> Unsupported \<in> set ps"
  by (induction ps ss aps rule: separate.induct) auto

lemma prefer_loop_find:
  "map Compile preferRoles = map Some matchers \<Longrightarrow>
     prefer_loop Compile preferRoles this existing =
       Inr (case find (\<lambda>m. m this \<noteq> m existing) matchers of
              None \<Rightarrow> True
            | Some m \<Rightarrow> m this)"
proof (induction preferRoles arbitrary: matchers)
  case Nil
  then show ?case by simp
next
  case (Cons p ps)
  then obtain m ms where ms: "matchers = m # ms" "Compile p = Some m" "map Compile ps = map Some ms"
    by (cases matchers) auto
  show ?case
    using Cons.IH [OF ms(3)] ms(1,2) by (auto simp: Let_def)
qed

lemma RoleName_fields [simp]: "RoleName (default_region opts (name_fields ssn a)) = RoleName a"
  by (simp add: default_region_def name_fields_def)

subsection \<open>Sections of a generated name\<close>

lemma targeted_section_replaced:
  assumes "n \<in> Name ` set (config (Merge Parse Compile (opts\<lparr>Config := []\<rparr>)))"
  shows "GetSection (config (Merge Parse Compile opts)) n
           = GetSection (config (Merge Parse Compile (opts\<lparr>Config := []\<rparr>))) n"
proof -
  let ?W = "config (Merge Parse Compile (opts\<lparr>Config := []\<rparr>))"
  have W: "?W \<noteq> []" using assms by auto
  have run: "\<not> (separate (Profiles opts) [] [] = None
            \<or> Parse (SectionNameTemplate (with_default_template opts)) = None)"
  proof
    assume "separate (Profiles opts) [] [] = None
            \<or> Parse (SectionNameTemplate (with_default_template opts)) = None"
    then have "?W = []"
      by (auto simp: Merge_def Let_def with_default_template_Config split: option.split)
    then show False using W by simp
  qed
  have "n \<notin> section_names (without (section_names ?W) (prune (PruneStartURLs opts) (Config opts)))"
    using assms unfolding section_names_rest by (simp add: section_names_def)
  then show ?thesis
    using run by (subst Merge_split) (auto simp: Let_def GetSection_split)
qed

subsection \<open>Runs without an error\<close>

lemma prefer_loop_compiles:
  assumes "\<forall>p \<in> set preferRoles. Compile p \<noteq> None"
  shows "\<exists>b. prefer_loop Compile preferRoles this existing = Inr b"
proof -
  have "map Compile preferRoles = map Some (map (\<lambda>p. the (Compile p)) preferRoles)"
    using assms by (induction preferRoles) auto
  from prefer_loop_find [OF this] show ?thesis by blast
qed

lemma claimed_GetSection:
  assumes "claimed seen f" and "n \<in> set seen"
  shows "GetSection f (''profile '' @ n) \<noteq> None"
proof -
  have "''profile '' @ n \<in> Name ` set f"
    using assms unfolding claimed_def section_names_def by auto
  then show ?thesis
    unfolding GetSection_def by (auto simp: find_None_iff)
qed

lemma process_profile_no_error:
  assumes r: "t (name_fields ssn a) = Some rendered"
      and c: "\<forall>p \<in> set (PreferRoles opts). Compile p \<noteq> None"
      and cl: "claimed (seenProfileNames st) (cfg st)"
  shows "fst (process_profile Compile opts t ssn a st) = None"
proof (cases "Prefix opts @ rendered \<in> set (seenProfileNames st) \<and> PreferRoles opts \<noteq> []")
  case False
  then show ?thesis
    using r by (auto simp: process_profile_def write_profile_eq Let_def)
next
  case True
  then obtain existing where
    ex: "GetSection (cfg st) (''profile '' @ Prefix opts @ rendered) = Some existing"
    using claimed_GetSection [OF cl, of "Prefix opts @ rendered"] by auto
  obtain b where "prefer_loop Compile (PreferRoles opts)
      (RoleName (default_region opts (name_fields ssn a))) (existing_role existing) = Inr b"
    using prefer_loop_compiles [OF c] by blast
  then show ?thesis
    using r True ex by (simp add: process_profile_def write_profile_eq Let_def)
qed

lemma process_profile_target:
  assumes r: "t (name_fields ssn a) = Some rendered"
      and cl: "claimed (seenProfileNames st) (cfg st)"
      and ok: "process_profile Compile opts t ssn a st = (None, st')"
  shows "''profile '' @ Prefix opts @ rendered \<in> section_names (cfg st')"
proof (cases rule: process_profile_cases [of Compile opts t ssn a st])
  case (failed er)
  then show ?thesis using ok by simp
next
  case (skipped rendered')
  then have "''profile '' @ Prefix opts @ rendered \<in> section_names (cfg st)"
    using r cl by (auto simp: claimed_def)
  then show ?thesis using skipped ok by simp
next
  case (overwritten rendered')
  then show ?thesis using r ok by (auto simp: section_names_put profile_section_def)
next
  case (recorded rendered')
  then show ?thesis using r ok by (auto simp: section_names_put profile_section_def)
qed

lemma process_profiles_no_error:
  assumes "\<forall>a \<in> set ps. t (name_fields ssn a) \<noteq> None"
      and "\<forall>p \<in> set (PreferRoles opts). Compile p \<noteq> None"
      and "claimed (seenProfileNames st) (cfg st)"
  shows "fst (process_profiles Compile opts t ssn ps st) = None
       \<and> (\<forall>a \<in> set ps. \<forall>rendered. t (name_fields ssn a) = Some rendered \<longrightarrow>
            ''profile '' @ Prefix opts @ rendered
              \<in> section_names (cfg (snd (process_profiles Compile opts t ssn ps st))))"
  using assms
proof (induction ps arbitrary: st)
  case Nil
  show ?case by simp
next
  case (Cons a ps)
  obtain rendered where r: "t (name_fields ssn a) = Some rendered"
    using Cons.prems(1) by auto
  obtain st1 where step: "process_profile Compile opts t ssn a st = (None, st1)"
    using process_profile_no_error [where t = t and ssn = ssn and a = a, OF r Cons.prems(2,3)]
    by (cases "process_profile Compile opts t ssn a st") auto
  have cl1: "claimed (seenProfileNames st1) (cfg st1)"
    using process_profile_claimed [OF step Cons.prems(3)] by simp
  have t1: "''profile '' @ Prefix opts @ rendered \<in> section_names (cfg st1)"
    by (rule process_profile_target [OF r Cons.prems(3) step])
  obtain e2 st2 where loop: "process_profiles Compile opts t ssn ps st1 = (e2, st2)"
    by (cases "process_profiles Compile opts t ssn ps st1")
  have mono: "section_names (cfg st1) \<subseteq> section_names (cfg st2)"
    using process_profiles_claimed [OF loop cl1] by simp
  have IH: "e2 = None \<and> (\<forall>a \<in> set ps. \<forall>rendered. t (name_fields ssn a) = Some rendered \<longrightarrow>
            ''profile '' @ Prefix opts @ rendered \<in> section_names (cfg st2))"
    using Cons.IH [of st1] Cons.prems(1,2) cl1 loop by simp
  show ?case
    using step loop IH t1 mono r by auto
qed

lemma process_profiles_cong:
  "map (name_fields ssn) ps = map (name_fields ssn) qs \<Longrightarrow>
     process_profiles Compile opts t ssn ps st = process_profiles Compile opts t ssn qs st"
proof (induction ps arbitrary: qs st)
  case Nil
  then show ?case by simp
next
  case (Cons a ps)
  then obtain b qs' where qs: "qs = b # qs'" "name_fields ssn a = name_fields ssn b"
      "map (name_fields ssn) ps = map (name_fields ssn) qs'"
    by (cases qs) auto
  have "process_profile Compile opts t ssn a st = process_profile Compile opts t ssn b st" for st
    using qs(2) by (simp add: process_profile_def)
  then show ?case
    using Cons.IH [OF qs(3)] qs(1) by (simp cong: prod.case_cong option.case_cong)
qed

lemma write_all_eq':
  "write_all Compile opts t ss aps f =
     finish (process_profiles Compile opts t (ssoSessionName_of opts) aps
       \<lparr>cfg = sessions_phase opts ss aps f, seenProfileNames = [], profileNameToRoles = (\<lambda>n. [])\<rparr>)"
proof -
  have "map (name_fields (ssoSessionName_of opts)) (assigned opts aps)
      = map (name_fields (ssoSessionName_of opts)) aps"
    by (simp add: assigned_def assign_sessions_name_fields)
  from process_profiles_cong [OF this] show ?thesis
    by (simp add: write_all_eq)
qed

lemma err_finish: "err (finish (e, st)) = e"
  by (simp add: finish_def split: option.split)

subsection \<open>Duplicates\<close>





subsection \<open>What the second loop records\<close>









section \<open>The claims\<close>

subsection \<open>Pruning\<close>





subsection \<open>Idempotence\<close>



subsection \<open>Unsupported profiles\<close>

text \<open>
  C4 (the code departs from the claim). The default case of the type switch is commented
  ``Unsupported profile type, skip'', and is \<^verbatim>\<open>return nil\<close>: one unsupported entry
  anywhere in \<^verbatim>\<open>opts.Profiles\<close> ends Merge before it has pruned, rendered or written
  anything. Merge returns no error, and the document is the input document.
\<close>

theorem unsupported_profile_ends_merge:
  assumes "Unsupported \<in> set (Profiles opts)"
  shows "Merge Parse Compile opts = \<lparr>err = None, config = Config opts, warnings = []\<rparr>"
proof -
  have "separate (Profiles opts) [] [] = None"
    using assms by (simp add: separate_None)
  then show ?thesis by (simp add: Merge_def Let_def)
qed

theorem unsupported_profile_ends_merge_witness:
  "Unsupported \<in> set (Profiles (example_opts\<lparr>Profiles := [Unsupported, Account (example_profile ''prod'' ''DevRole'')]\<rparr>))
   \<and> Merge example_parser example_compiler
        (example_opts\<lparr>Profiles := [Unsupported, Account (example_profile ''prod'' ''DevRole'')]\<rparr>)
      = \<lparr>err = None, config = example_config, warnings = []\<rparr>
   \<and> map Name (config (Merge example_parser example_compiler example_opts))
      = [''DEFAULT'', ''profile example'', ''profile prod/DevRole'']"
proof -
  have 1: "Unsupported \<in> set (Profiles (example_opts\<lparr>Profiles := [Unsupported, Account (example_profile ''prod'' ''DevRole'')]\<rparr>))"
    by simp
  have 2: "map Name (config (Merge example_parser example_compiler example_opts))
      = [''DEFAULT'', ''profile example'', ''profile prod/DevRole'']"
    by code_simp
  have 3: "Config (example_opts\<lparr>Profiles := [Unsupported, Account (example_profile ''prod'' ''DevRole'')]\<rparr>) = example_config"
    by (simp add: example_opts_def)
  show ?thesis
    using 1 2 3 unsupported_profile_ends_merge [OF 1, of example_parser example_compiler] by simp
qed

subsection \<open>Session names\<close>

text \<open>
  C6 (the code departs from the claim). The second loop assigns \<^verbatim>\<open>ssoSessionName\<close> to
  every account profile, whatever its \<^verbatim>\<open>SSOSessionName\<close> was. On the input of the test
  ``ok'' of TestGenerator\_GenerateNoCredentialProcess, with the caller's session name
  empty, the profile that came with the session name \<^verbatim>\<open>company\<close> is written with an
  empty \<^verbatim>\<open>sso_session\<close>, where the test expects \<^verbatim>\<open>company\<close>.
\<close>

theorem explicit_session_name_overwritten:
  "Merge example_parser example_compiler
     (example_opts\<lparr>NoCredentialProcess := True,
                   Profiles := [Session example_session,
                                Account ((example_profile ''prod'' ''DevRole'')\<lparr>SSOSessionName := ''company''\<rparr>)]\<rparr>)
   = \<lparr>err = None,
      config =
        [\<lparr>Name = ''DEFAULT'', Keys = []\<rparr>,
         \<lparr>Name = ''profile example'', Keys = [(''test'', ''1'')]\<rparr>,
         \<lparr>Name = ''sso-session company'',
          Keys = [(''sso_start_url'', ''https://example.awsapps.com/start''),
                  (''sso_registration_scopes'', ''sso:account:access''),
                  (''sso_region'', ''ap-southeast-2''),
                  (''common_fate_generated_from'', ''aws-sso'')]\<rparr>,
         \<lparr>Name = ''profile prod/DevRole'',
          Keys = [(''sso_session'', []),
                  (''sso_account_id'', ''123456789012''),
                  (''common_fate_generated_from'', ''aws-sso''),
                  (''sso_role_name'', ''DevRole'')]\<rparr>],
      warnings = []\<rparr>"
  by code_simp

subsection \<open>Sorting\<close>



subsection \<open>Conflicts\<close>



subsection \<open>User-owned sections\<close>




subsection \<open>Section names\<close>

text \<open>
  C7, as amended. Merge does not validate the rendered name. When \<^verbatim>\<open>opts.Profiles\<close>
  holds sessions and account profiles only, the template parses and renders for every
  account profile, and every preference pattern compiles, Merge returns no error, whatever
  characters the rendered names hold, and the output has, for every account profile, a
  section named \<^verbatim>\<open>profile\<close>, a space, the prefix and the rendered name.
\<close>

theorem rendered_name_is_not_validated:
  assumes sep: "separate (Profiles opts) [] [] = Some (ssoSessions, accountProfiles)"
      and parse: "Parse (SectionNameTemplate (with_default_template opts)) = Some sectionNameTempl"
      and render: "\<forall>a \<in> set accountProfiles.
                     sectionNameTempl (name_fields (ssoSessionName_of opts) a) \<noteq> None"
      and compile: "\<forall>p \<in> set (PreferRoles opts). Compile p \<noteq> None"
  shows "err (Merge Parse Compile opts) = None
       \<and> (\<forall>a \<in> set accountProfiles. \<forall>rendered.
            sectionNameTempl (name_fields (ssoSessionName_of opts) a) = Some rendered \<longrightarrow>
            ''profile '' @ Prefix opts @ rendered \<in> Name ` set (config (Merge Parse Compile opts)))"
proof -
  let ?o = "with_default_template opts"
  let ?ps = "sort_profiles accountProfiles"
  let ?st = "\<lparr>cfg = sessions_phase ?o ssoSessions ?ps (prune (PruneStartURLs opts) (Config opts)),
              seenProfileNames = [], profileNameToRoles = (\<lambda>n. [])\<rparr>"
  let ?run = "process_profiles Compile ?o sectionNameTempl (ssoSessionName_of opts) ?ps ?st"
  have ssn: "ssoSessionName_of ?o = ssoSessionName_of opts"
    by (simp add: ssoSessionName_of_def)
  obtain e st' where run: "?run = (e, st')" by (cases ?run)
  have M: "Merge Parse Compile opts = finish (e, st')"
    using sep parse run by (simp add: Merge_def Let_def write_all_eq' ssn)
  have set: "set ?ps = set accountProfiles"
    by (simp add: sort_profiles_def)
  have "fst ?run = None
       \<and> (\<forall>a \<in> set ?ps. \<forall>rendered. sectionNameTempl (name_fields (ssoSessionName_of opts) a) = Some rendered \<longrightarrow>
            ''profile '' @ Prefix ?o @ rendered \<in> section_names (cfg (snd ?run)))"
    by (rule process_profiles_no_error) (use render compile in \<open>simp_all add: set claimed_def\<close>)
  then show ?thesis
    unfolding M run set by (simp add: err_finish config_finish section_names_def)
qed

text \<open>
  The claim as stated fails: with the template of the test ``invalid template fails
  whitespace'' and one profile, Merge returns no error and writes a section whose name
  ends in a space; with the template of ``invalid template fails ;'', one whose name ends
  in a semicolon.
\<close>

theorem invalid_section_name_counterexample:
  "Merge example_parser example_compiler (example_opts\<lparr>SectionNameTemplate := ''{{ .AccountName }}. ''\<rparr>)
     = \<lparr>err = None,
        config =
          [\<lparr>Name = ''DEFAULT'', Keys = []\<rparr>,
           \<lparr>Name = ''profile example'', Keys = [(''test'', ''1'')]\<rparr>,
           \<lparr>Name = ''profile prod. '',
            Keys = [(''granted_sso_start_url'', ''https://example.awsapps.com/start''),
                    (''granted_sso_region'', ''ap-southeast-2''),
                    (''granted_sso_account_id'', ''123456789012''),
                    (''granted_sso_role_name'', ''DevRole''),
                    (''common_fate_generated_from'', ''aws-sso''),
                    (''credential_process'', ''granted credential-process --profile prod. '')]\<rparr>],
        warnings = []\<rparr>
   \<and> err (Merge example_parser example_compiler
            (example_opts\<lparr>SectionNameTemplate := ''{{ .AccountName }}.;''\<rparr>)) = None
   \<and> map Name (config (Merge example_parser example_compiler
            (example_opts\<lparr>SectionNameTemplate := ''{{ .AccountName }}.;''\<rparr>)))
       = [''DEFAULT'', ''profile example'', ''profile prod.;'']"
  by code_simp

theorem rendered_name_is_not_validated_witness:
  "separate (Profiles (example_opts\<lparr>SectionNameTemplate := ''{{ .AccountName }}. '', PreferRoles := [''Admin'']\<rparr>)) [] []
     = Some ([], [example_profile ''prod'' ''DevRole''])
   \<and> example_parser ''{{ .AccountName }}. '' = Some (\<lambda>a. Some (AccountName a @ ''. ''))
   \<and> example_compiler ''Admin'' \<noteq> None
   \<and> err (Merge example_parser example_compiler
            (example_opts\<lparr>SectionNameTemplate := ''{{ .AccountName }}. '', PreferRoles := [''Admin'']\<rparr>)) = None
   \<and> ''profile prod. '' \<in> Name ` set (config (Merge example_parser example_compiler
            (example_opts\<lparr>SectionNameTemplate := ''{{ .AccountName }}. '', PreferRoles := [''Admin'']\<rparr>)))"
proof -
  let ?o = "example_opts\<lparr>SectionNameTemplate := ''{{ .AccountName }}. '', PreferRoles := [''Admin'']\<rparr>"
  let ?t = "\<lambda>a. Some (AccountName a @ ''. '')"
  let ?p = "example_profile ''prod'' ''DevRole''"
  have sep: "separate (Profiles ?o) [] [] = Some ([], [?p])"
    by (simp add: example_opts_def)
  have parse: "example_parser (SectionNameTemplate (with_default_template ?o)) = Some ?t"
    by (simp add: with_default_template_def example_parser_def)
  have parse': "example_parser ''{{ .AccountName }}. '' = Some ?t"
    by (simp add: example_parser_def)
  have render: "\<forall>a \<in> set [?p]. ?t (name_fields (ssoSessionName_of ?o) a) \<noteq> None"
    by simp
  have compile: "\<forall>p \<in> set (PreferRoles ?o). example_compiler p \<noteq> None"
    by (simp add: example_compiler_def)
  have r: "?t (name_fields (ssoSessionName_of ?o) ?p) = Some ''prod. ''"
    by (simp add: name_fields_def example_profile_def normalizeAccountName_def)
  have pre: "Prefix ?o = []"
    by (simp add: example_opts_def)
  have c: "example_compiler ''Admin'' \<noteq> None"
    by (simp add: example_compiler_def)
  from rendered_name_is_not_validated [where sectionNameTempl = ?t and Parse = example_parser
      and Compile = example_compiler and opts = ?o, OF sep parse render compile] r pre
  have "err (Merge example_parser example_compiler ?o) = None
      \<and> ''profile prod. '' \<in> Name ` set (config (Merge example_parser example_compiler ?o))"
    by auto
  then show ?thesis
    using sep parse' c by simp
qed

subsection \<open>The duplicate report\<close>




end
